theory Spec2Isabelle
  imports Complex_Main "HOL-Library.AList"
begin

section \<open>Values read by \<open>json.load\<close>\<close>

text \<open>
  The script \<^verbatim>\<open>scripts/scrape_availability.py\<close> reads two JSON files and writes a third.
  A parsed document is a tree. Numbers are kept as Python has them after parsing: an
  \<open>int\<close> of any size, or a \<open>float\<close>, of which only the mathematical value matters here
  (no arithmetic is done on them; they are only tested for zero and compared as
  dictionary keys, and Python compares \<open>int\<close> and \<open>float\<close> by exact value).
  An object keeps its members as they stand in the file, duplicates included;
  \<open>py_dict\<close> below builds the dictionary that \<open>json.load\<close> returns for them.
\<close>

datatype pyfloat = FVal rat | FInf | FNegInf | FNaN

datatype json =
    JNull
  | JBool bool
  | JInt int
  | JFloat pyfloat
  | JStr string
  | JArr "json list"
  | JObj "(string \<times> json) list"

datatype py_error =
    FileNotFoundError
  | JSONDecodeError
  | AttributeError
  | TypeError
  | KeyError
  | OSError

text \<open>
  A Python dictionary keeps insertion order; storing under a key that is already there
  replaces the value and leaves the position alone. That is \<open>AList.update\<close> on an
  association list, and \<open>map_of\<close> is the lookup. \<open>dict_from d ps\<close> stores the pairs
  \<open>ps\<close> one after the other into \<open>d\<close>.
\<close>

fun dict_from :: "('k \<times> 'v) list \<Rightarrow> ('k \<times> 'v) list \<Rightarrow> ('k \<times> 'v) list" where
  "dict_from d [] = d"
| "dict_from d ((k, v) # ps) = dict_from (AList.update k v d) ps"

definition py_dict :: "(string \<times> json) list \<Rightarrow> (string \<times> json) list" where
  "py_dict ms = dict_from [] ms"

text \<open>
  Dictionary keys. Python finds a key by \<open>hash\<close> and \<open>==\<close>, and \<open>True == 1 == 1.0\<close>:
  a key is kept here by what it is equal to, so that HOL equality of \<open>pykey\<close> is Python's
  key equality. Every \<open>NaN\<close> that \<open>json.load\<close> returns is the one object
  \<open>json.decoder.NaN\<close>, which a dictionary finds by identity, so it is one key as well.
  Lists and dictionaries are unhashable.
\<close>

datatype pykey = KNone | KNum pyfloat | KStr string

fun py_key :: "json \<Rightarrow> py_error + pykey" where
  "py_key JNull = Inr KNone"
| "py_key (JBool b) = Inr (KNum (FVal (if b then 1 else 0)))"
| "py_key (JInt n) = Inr (KNum (FVal (of_int n)))"
| "py_key (JFloat f) = Inr (KNum f)"
| "py_key (JStr s) = Inr (KStr s)"
| "py_key (JArr xs) = Inl TypeError"
| "py_key (JObj ms) = Inl TypeError"

text \<open>\<open>bool(val)\<close>: Python's truth value of a parsed JSON value.\<close>

fun py_bool :: "json \<Rightarrow> bool" where
  "py_bool JNull = False"
| "py_bool (JBool b) = b"
| "py_bool (JInt n) = (n \<noteq> 0)"
| "py_bool (JFloat f) = (f \<noteq> FVal 0)"
| "py_bool (JStr s) = (s \<noteq> [])"
| "py_bool (JArr xs) = (xs \<noteq> [])"
| "py_bool (JObj ms) = (py_dict ms \<noteq> [])"

text \<open>\<open>for x in v\<close>: a list gives its elements, a dictionary its keys, a string its
  characters (one \<open>char\<close> of the model each); anything else is not iterable.\<close>

fun py_iter :: "json \<Rightarrow> py_error + json list" where
  "py_iter (JArr xs) = Inr xs"
| "py_iter (JObj ms) = Inr (map (\<lambda>p. JStr (fst p)) (py_dict ms))"
| "py_iter (JStr s) = Inr (map (\<lambda>c. JStr [c]) s)"
| "py_iter v = Inl TypeError"

text \<open>\<open>v.items()\<close>, \<open>v.get(k, dflt)\<close> and \<open>v[k]\<close> with a string \<open>k\<close>: only a dictionary
  has the first two, and only a dictionary can be indexed by a string.\<close>

fun py_items :: "json \<Rightarrow> py_error + (string \<times> json) list" where
  "py_items (JObj ms) = Inr (py_dict ms)"
| "py_items v = Inl AttributeError"

fun py_get :: "json \<Rightarrow> string \<Rightarrow> json \<Rightarrow> py_error + json" where
  "py_get (JObj ms) k dflt = Inr (case map_of (py_dict ms) k of None \<Rightarrow> dflt | Some v \<Rightarrow> v)"
| "py_get v k dflt = Inl AttributeError"

fun py_getitem :: "json \<Rightarrow> string \<Rightarrow> py_error + json" where
  "py_getitem (JObj ms) k = (case map_of (py_dict ms) k of None \<Rightarrow> Inl KeyError | Some v \<Rightarrow> Inr v)"
| "py_getitem v k = Inl TypeError"

section \<open>The availability map\<close>

type_synonym sizes = "(pykey \<times> bool) list"
type_synonym avail = "(pykey \<times> sizes) list"

definition lookup2 :: "avail \<Rightarrow> pykey \<Rightarrow> pykey \<Rightarrow> bool option" where
  "lookup2 a k z = (case map_of a k of None \<Rightarrow> None | Some d \<Rightarrow> map_of d z)"

definition pair_dom :: "avail \<Rightarrow> (pykey \<times> pykey) set" where
  "pair_dom a = {(k, z). lookup2 a k z \<noteq> None}"

section \<open>The built-in table\<close>

definition all_sizes_true :: json where
  "all_sizes_true = JObj [(''I'', JBool True), (''T'', JBool True), (''S'', JBool True),
     (''M'', JBool True), (''L'', JBool True), (''XL'', JBool True), (''XXL'', JBool True)]"

definition BUILTIN_OVERRIDES :: json where
  "BUILTIN_OVERRIDES = JObj [
     (''sapphire'', JObj [(''I'', JBool True), (''T'', JBool False), (''S'', JBool False),
        (''M'', JBool False), (''L'', JBool True), (''XL'', JBool True), (''XXL'', JBool True)]),
     (''bliss'', all_sizes_true),
     (''onyx'', all_sizes_true),
     (''leopard'', all_sizes_true),
     (''tiger'', all_sizes_true),
     (''blueblack'', all_sizes_true),
     (''skyblue'', JObj [(''T'', JBool True), (''S'', JBool True)]),
     (''purple'', JObj [(''M'', JBool True)]),
     (''partybag'', JObj [(''ONESIZE'', JBool True)])]"

section \<open>Helpers\<close>

text \<open>
  What a path holds when it is opened and parsed: nothing, something that cannot be read
  as JSON, or a document.
\<close>

datatype disk_file = NoFile | Garbage | Doc json

fun load_json :: "disk_file \<Rightarrow> py_error + json" where
  "load_json NoFile = Inl FileNotFoundError"
| "load_json Garbage = Inl JSONDecodeError"
| "load_json (Doc v) = Inr v"

text \<open>
  \<open>merge_overrides\<close> changes \<open>base\<close> in place and may raise on the way; what it has
  stored by then stays stored. Each loop therefore returns the map as it leaves it,
  with the exception if there is one.

  The inner loop, \<^verbatim>\<open>for sz, val in size_map.items(): base[style_id][sz] = bool(val)\<close>:
\<close>

fun put_sizes :: "avail \<Rightarrow> pykey \<Rightarrow> (string \<times> json) list \<Rightarrow> avail \<times> py_error option" where
  "put_sizes base k [] = (base, None)"
| "put_sizes base k ((sz, val) # rest) =
     (case map_of base k of
        None \<Rightarrow> (base, Some KeyError)
      | Some d \<Rightarrow> put_sizes (AList.update k (AList.update (KStr sz) (py_bool val) d) base) k rest)"

text \<open>The outer loop, \<^verbatim>\<open>for style_id, size_map in extra.items()\<close>:\<close>

fun merge_styles :: "avail \<Rightarrow> (string \<times> json) list \<Rightarrow> avail \<times> py_error option" where
  "merge_styles base [] = (base, None)"
| "merge_styles base ((style_id, size_map) # rest) =
     (let base1 = (if map_of base (KStr style_id) = None
                   then AList.update (KStr style_id) [] base else base)
      in case py_items size_map of
           Inl e \<Rightarrow> (base1, Some e)
         | Inr items \<Rightarrow>
             (case put_sizes base1 (KStr style_id) items of
                (base2, Some e) \<Rightarrow> (base2, Some e)
              | (base2, None) \<Rightarrow> merge_styles base2 rest))"

definition merge_overrides :: "avail \<Rightarrow> json \<Rightarrow> avail \<times> py_error option" where
  "merge_overrides base extra =
     (case py_items extra of
        Inl e \<Rightarrow> (base, Some e)
      | Inr items \<Rightarrow> merge_styles base items)"

section \<open>Main\<close>

text \<open>The dictionary comprehension \<^verbatim>\<open>{s: True for s in szs}\<close>, over the iterated values.\<close>

fun sizes_true :: "sizes \<Rightarrow> json list \<Rightarrow> py_error + sizes" where
  "sizes_true d [] = Inr d"
| "sizes_true d (s # ss) =
     (case py_key s of
        Inl e \<Rightarrow> Inl e
      | Inr z \<Rightarrow> sizes_true (AList.update z True d) ss)"

text \<open>The seeding loop, \<^verbatim>\<open>for st in styles\<close>. An exception here is not caught.\<close>

fun seed :: "avail \<Rightarrow> json list \<Rightarrow> py_error + avail" where
  "seed a [] = Inr a"
| "seed a (st # rest) =
     (case py_getitem st ''id'' of
        Inl e \<Rightarrow> Inl e
      | Inr style_id \<Rightarrow>
     (case py_get st ''sizes'' (JArr []) of
        Inl e \<Rightarrow> Inl e
      | Inr szs \<Rightarrow>
     (case py_iter szs of
        Inl e \<Rightarrow> Inl e
      | Inr ss \<Rightarrow>
     (case sizes_true [] ss of
        Inl e \<Rightarrow> Inl e
      | Inr d \<Rightarrow>
     (case py_key style_id of
        Inl e \<Rightarrow> Inl e
      | Inr k \<Rightarrow> seed (AList.update k d a) rest)))))"

text \<open>Lines 79 to 86: \<open>catalog.get("styles", [])\<close> and the seeding of the empty map.\<close>

definition seed_catalog :: "json \<Rightarrow> py_error + avail" where
  "seed_catalog catalog =
     (case py_get catalog ''styles'' (JArr []) of
        Inl e \<Rightarrow> Inl e
      | Inr v \<Rightarrow>
     (case py_iter v of
        Inl e \<Rightarrow> Inl e
      | Inr sts \<Rightarrow> seed [] sts))"

text \<open>
  Lines 92 to 99: the optional file. \<open>os.path.exists\<close> is false for \<open>NoFile\<close>; otherwise
  the file is opened, parsed and merged inside \<open>try\<close>, and any exception is dropped,
  the map staying as the merge left it.
\<close>

fun apply_file :: "avail \<Rightarrow> disk_file \<Rightarrow> avail" where
  "apply_file a NoFile = a"
| "apply_file a Garbage = a"
| "apply_file a (Doc file_overrides) = fst (merge_overrides a file_overrides)"

text \<open>Lines 79 to 99: the map that goes into the output document.\<close>

definition build_availability :: "json \<Rightarrow> disk_file \<Rightarrow> py_error + avail" where
  "build_availability catalog ovr =
     (case seed_catalog catalog of
        Inl e \<Rightarrow> Inl e
      | Inr a0 \<Rightarrow>
     (case merge_overrides a0 BUILTIN_OVERRIDES of
        (a1, Some e) \<Rightarrow> Inl e
      | (a1, None) \<Rightarrow> Inr (apply_file a1 ovr)))"

text \<open>
  The surroundings of a run: the two input files, the clock already formatted by
  \<open>strftime("%Y-%m-%dT%H:%M:%SZ")\<close>, the output path, and whether \<open>os.makedirs\<close> and
  \<open>open(OUT_PATH, "w")\<close> succeed. A run that returns has written the document
  \<open>out_file\<close> and printed \<open>stdout\<close>; a run that raises has written nothing, since the
  only write is the last step.
\<close>

record output_doc =
  updatedAt :: string
  styles :: avail

record env =
  catalog_file :: disk_file
  overrides_file :: disk_file
  utcnow :: string
  out_path :: string
  out_writable :: bool

record run =
  out_file :: output_doc
  stdout :: string

definition main :: "env \<Rightarrow> py_error + run" where
  "main e =
     (case load_json (catalog_file e) of
        Inl err \<Rightarrow> Inl err
      | Inr catalog \<Rightarrow>
     (case build_availability catalog (overrides_file e) of
        Inl err \<Rightarrow> Inl err
      | Inr availability \<Rightarrow>
          if out_writable e
          then Inr \<lparr>out_file = \<lparr>updatedAt = utcnow e, styles = availability\<rparr>,
                    stdout = ''Wrote '' @ out_path e @ [CHR 0x0A]\<rparr>
          else Inl OSError))"

section \<open>Reading the model\<close>

text \<open>
  What follows are the notions in which the properties of the script are stated.

  \<open>coerce\<close> is what the inner loop of \<open>merge_overrides\<close> stores for one item of a size
  map, \<open>entry\<close> the size map a style has (empty when the style is new), and \<open>ensure\<close>
  the effect of \<^verbatim>\<open>if style_id not in base: base[style_id] = {}\<close>.
\<close>

definition coerce :: "string \<times> json \<Rightarrow> pykey \<times> bool" where
  "coerce p = (KStr (fst p), py_bool (snd p))"

definition entry :: "avail \<Rightarrow> pykey \<Rightarrow> sizes" where
  "entry a k = (case map_of a k of None \<Rightarrow> [] | Some d \<Rightarrow> d)"

definition ensure :: "avail \<Rightarrow> pykey \<Rightarrow> avail" where
  "ensure base k = (if map_of base k = None then AList.update k [] base else base)"

fun is_obj :: "json \<Rightarrow> bool" where
  "is_obj (JObj ms) = True"
| "is_obj v = False"

text \<open>
  An override layer is a document mapping a style to a map from size to value:
  \<open>raw_value extra sid sz\<close> is the value the layer gives for the pair, \<open>specified\<close>
  the boolean it stands for. \<open>override_doc\<close> says that the document has that shape, an
  object whose values are all objects.
\<close>

definition raw_value :: "json \<Rightarrow> string \<Rightarrow> string \<Rightarrow> json option" where
  "raw_value extra sid sz =
     (case extra of
        JObj ms \<Rightarrow> (case map_of (py_dict ms) sid of
                      Some (JObj zs) \<Rightarrow> map_of (py_dict zs) sz
                    | _ \<Rightarrow> None)
      | _ \<Rightarrow> None)"

definition specified :: "json \<Rightarrow> string \<Rightarrow> string \<Rightarrow> bool option" where
  "specified extra sid sz = map_option py_bool (raw_value extra sid sz)"

definition override_doc :: "json \<Rightarrow> bool" where
  "override_doc extra =
     (case extra of JObj ms \<Rightarrow> list_all (\<lambda>p. is_obj (snd p)) (py_dict ms) | _ \<Rightarrow> False)"

text \<open>
  The catalog as the data model has it: the document lists the style records \<open>recs\<close>,
  each an identifier with its size labels, in order. A style object may carry other
  members; a missing \<open>sizes\<close> member reads as no sizes, as \<open>st.get("sizes", [])\<close> does.
  \<open>seeded szs\<close> is the size map the seeding builds for the labels \<open>szs\<close>.
\<close>

fun style_record :: "json \<Rightarrow> string \<times> string list \<Rightarrow> bool" where
  "style_record (JObj ms) (i, szs) =
     (map_of (py_dict ms) ''id'' = Some (JStr i) \<and>
      (case map_of (py_dict ms) ''sizes'' of
         None \<Rightarrow> szs = []
       | Some v \<Rightarrow> v = JArr (map JStr szs)))"
| "style_record v r = False"

definition catalog_records :: "json \<Rightarrow> (string \<times> string list) list \<Rightarrow> bool" where
  "catalog_records catalog recs =
     (case catalog of
        JObj cms \<Rightarrow> (case map_of (py_dict cms) ''styles'' of
                       None \<Rightarrow> recs = []
                     | Some (JArr sts) \<Rightarrow> list_all2 style_record sts recs
                     | Some _ \<Rightarrow> False)
      | _ \<Rightarrow> False)"

definition seeded :: "string list \<Rightarrow> sizes" where
  "seeded szs = dict_from [] (map (\<lambda>s. (KStr s, True)) szs)"

definition seeded_style :: "string \<times> string list \<Rightarrow> pykey \<times> sizes" where
  "seeded_style r = (KStr (fst r), seeded (snd r))"

text \<open>
  The optional file as a layer: what it gives for a pair (nothing when it is absent or
  cannot be parsed), whether it applies without an exception, and whether it names a
  style at all.
\<close>

fun file_layer :: "disk_file \<Rightarrow> string \<Rightarrow> string \<Rightarrow> bool option" where
  "file_layer (Doc d) sid sz = specified d sid sz"
| "file_layer f sid sz = None"

fun clean_overrides :: "disk_file \<Rightarrow> bool" where
  "clean_overrides (Doc d) = override_doc d"
| "clean_overrides f = True"

fun mentions :: "disk_file \<Rightarrow> string \<Rightarrow> bool" where
  "mentions (Doc (JObj ms)) sid = (map_of (py_dict ms) sid \<noteq> None)"
| "mentions f sid = False"

text \<open>
  The precedence as the specification words it: the file's value if the file gives one,
  otherwise the built-in table's value if it gives one (\<open>spec_override\<close>), otherwise
  the default \<open>True\<close> (\<open>spec_precedence\<close>).
\<close>

definition spec_override :: "disk_file \<Rightarrow> string \<Rightarrow> string \<Rightarrow> bool option" where
  "spec_override ovr sid sz =
     (case file_layer ovr sid sz of
        Some b \<Rightarrow> Some b
      | None \<Rightarrow> specified BUILTIN_OVERRIDES sid sz)"

definition spec_precedence :: "disk_file \<Rightarrow> string \<Rightarrow> string \<Rightarrow> bool" where
  "spec_precedence ovr sid sz =
     (case file_layer ovr sid sz of
        Some b \<Rightarrow> b
      | None \<Rightarrow> (case specified BUILTIN_OVERRIDES sid sz of
                   Some b \<Rightarrow> b
                 | None \<Rightarrow> True))"

text \<open>Sample inputs, on which the theorems below are run.\<close>

definition sample_base :: avail where
  "sample_base = [(KStr ''onyx'', [(KStr ''S'', True), (KStr ''M'', True)])]"

definition sample_extra :: json where
  "sample_extra = JObj [(''onyx'', JObj [(''S'', JInt 0), (''L'', JStr ''no'')]),
                        (''tiger'', JObj [(''M'', JNull)])]"

definition sample_sizes :: "string list" where
  "sample_sizes = [''I'', ''T'', ''S'', ''M'', ''L'', ''XL'', ''XXL'']"

definition sample_records :: "(string \<times> string list) list" where
  "sample_records = [(''sapphire'', sample_sizes), (''zebra'', [''S'', ''M'']), (''plain'', [])]"

definition sample_catalog :: json where
  "sample_catalog = JObj [(''styles'', JArr [
     JObj [(''id'', JStr ''sapphire''), (''name'', JStr ''Sapphire''),
           (''sizes'', JArr (map JStr sample_sizes))],
     JObj [(''id'', JStr ''zebra''), (''sizes'', JArr [JStr ''S'', JStr ''M''])],
     JObj [(''id'', JStr ''plain'')]])]"

definition sample_file :: json where
  "sample_file = JObj [(''sapphire'', JObj [(''T'', JInt 1)]), (''zebra'', JObj [(''M'', JBool False)]),
                       (''extra'', JObj [(''XS'', JStr ''yes'')])]"

definition sparse_catalog :: json where
  "sparse_catalog = JObj [(''styles'', JArr [JObj [(''id'', JStr ''zebra''), (''sizes'', JArr [JStr ''S''])]])]"

definition empty_catalog :: json where
  "empty_catalog = JObj [(''styles'', JArr [])]"

definition nameless_catalog :: json where
  "nameless_catalog = JObj [(''styles'', JArr [JObj [(''sizes'', JArr [JStr ''S''])]])]"

definition broken_overrides :: json where
  "broken_overrides = JObj [(''sapphire'', JObj [(''T'', JBool True)]), (''bliss'', JInt 1)]"

definition sample_env :: "disk_file \<Rightarrow> disk_file \<Rightarrow> env" where
  "sample_env c ov = \<lparr>catalog_file = c, overrides_file = ov, utcnow = ''2024-05-01T12:00:00Z'',
     out_path = ''/repo/data/availability.json'', out_writable = True\<rparr>"

section \<open>Dictionaries built by successive stores\<close>

lemma map_of_dict_from: "map_of (dict_from d ps) = map_of d ++ map_of (rev ps)"
  by (induction d ps rule: dict_from.induct) (simp_all add: AList.update_conv' map_add_upd_left fun_eq_iff map_add_def split: option.splits)

lemma keys_dict_from: "fst ` set (dict_from d ps) = fst ` set d \<union> fst ` set ps"
  by (induction d ps rule: dict_from.induct) (auto simp: AList.dom_update)

lemma distinct_dict_from: "distinct (map fst d) \<Longrightarrow> distinct (map fst (dict_from d ps))"
  by (induction d ps rule: dict_from.induct) (simp_all add: AList.distinct_update)

lemma distinct_py_dict: "distinct (map fst (py_dict ms))"
  by (simp add: py_dict_def distinct_dict_from)

lemma update_absent: "k \<notin> fst ` set d \<Longrightarrow> AList.update k v d = d @ [(k, v)]"
  by (induction d) auto

lemma dict_from_distinct: "distinct (map fst (d @ ps)) \<Longrightarrow> dict_from d ps = d @ ps"
proof (induction d ps rule: dict_from.induct)
  case (1 d)
  then show ?case by simp
next
  case (2 d k v ps)
  have "k \<notin> fst ` set d" using 2(2) by auto
  then have u: "AList.update k v d = d @ [(k, v)]" by (rule update_absent)
  have "distinct (map fst ((d @ [(k, v)]) @ ps))" using 2(2) by auto
  with 2(1) u show ?case by simp
qed

lemma py_dict_distinct: "distinct (map fst ms) \<Longrightarrow> py_dict ms = ms"
  by (simp add: py_dict_def dict_from_distinct)

lemma dict_from_fix: "(\<And>k v. (k, v) \<in> set ps \<Longrightarrow> map_of d k = Some v) \<Longrightarrow> dict_from d ps = d"
  by (induction d ps rule: dict_from.induct) (simp_all add: AList.update_triv)

lemma dict_from_holds:
  assumes "distinct (map fst ps)" "(k, v) \<in> set ps"
  shows "map_of (dict_from d ps) k = Some v"
proof -
  have "distinct (map fst (rev ps))" using assms(1) by (simp add: rev_map[symmetric])
  moreover have "(k, v) \<in> set (rev ps)" using assms(2) by simp
  ultimately have "map_of (rev ps) k = Some v" by (rule map_of_is_SomeI)
  then show ?thesis by (simp add: map_of_dict_from)
qed

lemma dict_from_idem: "distinct (map fst ps) \<Longrightarrow> dict_from (dict_from d ps) ps = dict_from d ps"
  by (rule dict_from_fix) (rule dict_from_holds)

lemma py_dict_eval: "py_dict [] = []" "py_dict ((k, v) # ms) = dict_from [(k, v)] ms"
  by (simp_all add: py_dict_def)

section \<open>What \<open>merge_overrides\<close> stores\<close>

lemma map_of_rev_distinct: "distinct (map fst ps) \<Longrightarrow> map_of (rev ps) = map_of ps"
  by (subst map_of_inject_set) (simp_all add: rev_map[symmetric])

lemma map_of_dict_from_distinct:
  "distinct (map fst ps) \<Longrightarrow> map_of (dict_from d ps) = map_of d ++ map_of ps"
  by (simp add: map_of_dict_from map_of_rev_distinct)

lemma map_of_py_dict: "map_of (py_dict ms) = map_of (rev ms)"
  by (simp add: py_dict_def map_of_dict_from)

lemma map_of_coerce_str: "map_of (map coerce ps) (KStr z) = map_option py_bool (map_of ps z)"
  by (induction ps) (auto simp: coerce_def)

lemma map_of_coerce_other: "(\<And>s. z \<noteq> KStr s) \<Longrightarrow> map_of (map coerce ps) z = None"
  by (induction ps) (auto simp: coerce_def)

lemma distinct_coerce: "distinct (map fst ps) \<Longrightarrow> distinct (map fst (map coerce ps))"
proof -
  have "map fst (map coerce ps) = map KStr (map fst ps)" by (simp add: coerce_def)
  moreover assume "distinct (map fst ps)"
  ultimately show ?thesis by (simp add: distinct_map inj_on_def del: map_map)
qed

lemma put_sizes_eq:
  "map_of base k = Some d \<Longrightarrow>
   put_sizes base k items = (AList.update k (dict_from d (map coerce items)) base, None)"
proof (induction items arbitrary: base d)
  case Nil
  then show ?case by (simp add: AList.update_triv)
next
  case (Cons p items)
  obtain sz val where p: "p = (sz, val)" by (cases p)
  let ?d = "AList.update (KStr sz) (py_bool val) d"
  have "map_of (AList.update k ?d base) k = Some ?d" by (simp add: AList.update_conv')
  from Cons.IH[OF this] Cons.prems p show ?case by (simp add: coerce_def)
qed

lemma merge_styles_obj:
  "merge_styles base ((sid, JObj zs) # rest) =
   merge_styles (AList.update (KStr sid) (dict_from (entry base (KStr sid)) (map coerce (py_dict zs))) base) rest"
proof (cases "map_of base (KStr sid)")
  case None
  have "map_of (AList.update (KStr sid) [] base) (KStr sid) = Some []" by (simp add: AList.update_conv')
  from put_sizes_eq[OF this] None show ?thesis by (simp add: entry_def)
next
  case (Some d)
  from put_sizes_eq[OF this] Some show ?thesis by (simp add: entry_def)
qed

lemma merge_styles_bad:
  "\<not> is_obj sm \<Longrightarrow> merge_styles base ((sid, sm) # rest) =
     (if map_of base (KStr sid) = None then AList.update (KStr sid) [] base else base, Some AttributeError)"
  by (cases sm) simp_all

lemma merge_styles_entry:
  assumes "distinct (map fst items)" "list_all (\<lambda>p. is_obj (snd p)) items"
  shows "merge_styles base items = (a, e) \<Longrightarrow> e = None \<and>
     map_of a k = (case k of KStr sid \<Rightarrow> (case map_of items sid of
                      Some (JObj zs) \<Rightarrow> Some (dict_from (entry base k) (map coerce (py_dict zs)))
                    | _ \<Rightarrow> map_of base k)
                  | _ \<Rightarrow> map_of base k)"
  using assms
proof (induction items arbitrary: base)
  case Nil
  then show ?case by (auto split: pykey.splits)
next
  case (Cons p items)
  obtain sid sm where p: "p = (sid, sm)" by (cases p)
  with Cons.prems obtain zs where sm: "sm = JObj zs" by (cases sm) auto
  let ?b = "AList.update (KStr sid) (dict_from (entry base (KStr sid)) (map coerce (py_dict zs))) base"
  have m: "merge_styles ?b items = (a, e)" using Cons.prems(1) p sm by (simp only: merge_styles_obj)
  have d: "distinct (map fst items)" "list_all (\<lambda>p. is_obj (snd p)) items" using Cons.prems by auto
  have notin: "map_of items sid = None" using Cons.prems(2) p by (auto simp: map_of_eq_None_iff)
  note ih = Cons.IH[OF m d]
  have e: "s \<noteq> sid \<Longrightarrow> entry ?b (KStr s) = entry base (KStr s)" for s
    by (simp add: entry_def AList.update_conv')
  show ?case
  proof (cases k)
    case (KStr s)
    show ?thesis
    proof (cases "s = sid")
      case True
      with ih KStr notin p sm show ?thesis by (simp add: AList.update_conv')
    next
      case False
      have "map_of ?b (KStr s) = map_of base (KStr s)" using False by (simp add: AList.update_conv')
      with ih e[OF False] False show ?thesis unfolding KStr p sm by (simp split: option.splits json.splits)
    qed
  qed (use ih in \<open>simp_all add: AList.update_conv'\<close>)
qed

lemma merge_overrides_no_error:
  assumes "override_doc extra"
  shows "snd (merge_overrides base extra) = None"
proof -
  from assms obtain ms where x: "extra = JObj ms" and ok: "list_all (\<lambda>p. is_obj (snd p)) (py_dict ms)"
    by (cases extra) (simp_all add: override_doc_def)
  obtain a e where m: "merge_styles base (py_dict ms) = (a, e)" by (cases "merge_styles base (py_dict ms)")
  from merge_styles_entry[OF distinct_py_dict ok m] have "e = None" by simp
  with m x show ?thesis by (simp add: merge_overrides_def)
qed

lemma merge_overrides_entry:
  assumes "override_doc extra"
  shows "map_of (fst (merge_overrides base extra)) (KStr sid) =
     (case extra of JObj ms \<Rightarrow> (case map_of (py_dict ms) sid of
          Some (JObj zs) \<Rightarrow> Some (dict_from (entry base (KStr sid)) (map coerce (py_dict zs)))
        | _ \<Rightarrow> map_of base (KStr sid))
      | _ \<Rightarrow> map_of base (KStr sid))"
proof -
  from assms obtain ms where x: "extra = JObj ms" and ok: "list_all (\<lambda>p. is_obj (snd p)) (py_dict ms)"
    by (cases extra) (simp_all add: override_doc_def)
  obtain a e where m: "merge_styles base (py_dict ms) = (a, e)" by (cases "merge_styles base (py_dict ms)")
  from merge_styles_entry[OF distinct_py_dict ok m, of "KStr sid"] m x
  show ?thesis by (simp add: merge_overrides_def)
qed

lemma merge_overrides_other_key:
  assumes "override_doc extra" "\<And>s. k \<noteq> KStr s"
  shows "map_of (fst (merge_overrides base extra)) k = map_of base k"
proof -
  from assms obtain ms where x: "extra = JObj ms" and ok: "list_all (\<lambda>p. is_obj (snd p)) (py_dict ms)"
    by (cases extra) (simp_all add: override_doc_def)
  obtain a e where m: "merge_styles base (py_dict ms) = (a, e)" by (cases "merge_styles base (py_dict ms)")
  from merge_styles_entry[OF distinct_py_dict ok m, of k] m x assms(2)
  show ?thesis by (cases k) (auto simp: merge_overrides_def)
qed

lemma map_of_stored:
  "map_of (dict_from d (map coerce (py_dict zs))) (KStr sz) =
     (case map_option py_bool (map_of (py_dict zs) sz) of None \<Rightarrow> map_of d (KStr sz) | Some b \<Rightarrow> Some b)"
proof -
  have "distinct (map fst (map coerce (py_dict zs)))"
    by (rule distinct_coerce[OF distinct_py_dict])
  then have "map_of (dict_from d (map coerce (py_dict zs))) =
      map_of d ++ map_of (map coerce (py_dict zs))"
    by (rule map_of_dict_from_distinct)
  then show ?thesis
    by (simp add: map_add_def map_of_coerce_str split: option.splits)
qed

lemma merge_overrides_lookup:
  assumes "override_doc extra"
  shows "lookup2 (fst (merge_overrides base extra)) (KStr sid) (KStr sz) =
     (case specified extra sid sz of
        Some b \<Rightarrow> Some b
      | None \<Rightarrow> lookup2 base (KStr sid) (KStr sz))"
proof -
  from assms obtain ms where x: "extra = JObj ms"
    by (cases extra) (simp_all add: override_doc_def)
  note en = merge_overrides_entry[OF assms, of base sid, unfolded x]
  show ?thesis
    unfolding lookup2_def specified_def raw_value_def x en
    by (simp add: map_of_stored entry_def split: option.splits json.splits)
qed

section \<open>Nothing is removed, and a second pass changes nothing\<close>

lemma merge_styles_bad': "\<not> is_obj sm \<Longrightarrow>
   merge_styles base ((sid, sm) # rest) = (ensure base (KStr sid), Some AttributeError)"
  unfolding ensure_def by (rule merge_styles_bad)

lemma lookup2_ensure: "lookup2 (ensure base k') k z = lookup2 base k z"
  by (simp add: ensure_def lookup2_def AList.update_conv')

lemma map_of_ensure_other: "k \<noteq> k' \<Longrightarrow> map_of (ensure base k') k = map_of base k"
  by (simp add: ensure_def AList.update_conv')

lemma keys_ensure: "fst ` set base \<subseteq> fst ` set (ensure base k)"
  by (auto simp: ensure_def AList.dom_update)

lemma ensure_idem: "ensure (ensure base k) k = ensure base k"
  by (simp add: ensure_def AList.update_conv')

lemma lookup2_store_keeps:
  assumes "lookup2 base k z \<noteq> None"
  shows "lookup2 (AList.update k' (dict_from (entry base k') cs) base) k z \<noteq> None"
proof (cases "k = k'")
  case True
  from assms obtain d where d: "map_of base k = Some d" and z: "map_of d z \<noteq> None"
    by (auto simp: lookup2_def split: option.splits)
  from z have "z \<in> fst ` set d" by (simp add: map_of_eq_None_iff)
  then have "z \<in> fst ` set (dict_from d cs)" by (simp add: keys_dict_from)
  then have "map_of (dict_from d cs) z \<noteq> None" by (simp add: map_of_eq_None_iff)
  with True d show ?thesis by (simp add: lookup2_def AList.update_conv' entry_def)
next
  case False
  with assms show ?thesis by (simp add: lookup2_def AList.update_conv')
qed

lemma merge_styles_keeps_pair:
  "lookup2 base k z \<noteq> None \<Longrightarrow> lookup2 (fst (merge_styles base items)) k z \<noteq> None"
proof (induction items arbitrary: base)
  case Nil
  then show ?case by simp
next
  case (Cons p items)
  obtain sid sm where p: "p = (sid, sm)" by (cases p)
  show ?case
  proof (cases "is_obj sm")
    case True
    then obtain zs where sm: "sm = JObj zs" by (cases sm) auto
    show ?thesis unfolding p sm merge_styles_obj
      by (rule Cons.IH) (rule lookup2_store_keeps[OF Cons.prems])
  next
    case False
    with Cons.prems show ?thesis unfolding p merge_styles_bad'[OF False] by (simp add: lookup2_ensure)
  qed
qed

lemma merge_styles_keeps_style:
  "fst ` set base \<subseteq> fst ` set (fst (merge_styles base items))"
proof (induction items arbitrary: base)
  case Nil
  then show ?case by simp
next
  case (Cons p items)
  obtain sid sm where p: "p = (sid, sm)" by (cases p)
  show ?case
  proof (cases "is_obj sm")
    case True
    then obtain zs where sm: "sm = JObj zs" by (cases sm) auto
    let ?b = "AList.update (KStr sid) (dict_from (entry base (KStr sid)) (map coerce (py_dict zs))) base"
    have "fst ` set base \<subseteq> fst ` set ?b" by (auto simp: AList.dom_update)
    also have "\<dots> \<subseteq> fst ` set (fst (merge_styles ?b items))" by (rule Cons.IH)
    finally show ?thesis unfolding p sm merge_styles_obj .
  next
    case False
    show ?thesis unfolding p merge_styles_bad'[OF False] by (simp add: keys_ensure)
  qed
qed

lemma merge_styles_frame:
  "k \<notin> KStr ` fst ` set items \<Longrightarrow> map_of (fst (merge_styles base items)) k = map_of base k"
proof (induction items arbitrary: base)
  case Nil
  then show ?case by simp
next
  case (Cons p items)
  obtain sid sm where p: "p = (sid, sm)" by (cases p)
  from Cons.prems p have ne: "k \<noteq> KStr sid" and rest: "k \<notin> KStr ` fst ` set items" by auto
  show ?case
  proof (cases "is_obj sm")
    case True
    then obtain zs where sm: "sm = JObj zs" by (cases sm) auto
    show ?thesis unfolding p sm merge_styles_obj Cons.IH[OF rest]
      using ne by (simp add: AList.update_conv')
  next
    case False
    show ?thesis unfolding p merge_styles_bad'[OF False] using ne by (simp add: map_of_ensure_other)
  qed
qed

lemma merge_styles_idem:
  "distinct (map fst items) \<Longrightarrow> merge_styles base items = (a, e) \<Longrightarrow> merge_styles a items = (a, e)"
proof (induction items arbitrary: base)
  case Nil
  then show ?case by simp
next
  case (Cons p items)
  obtain sid sm where p: "p = (sid, sm)" by (cases p)
  from Cons.prems(1) p have dist: "distinct (map fst items)" and fresh: "KStr sid \<notin> KStr ` fst ` set items"
    by auto
  show ?case
  proof (cases "is_obj sm")
    case True
    then obtain zs where sm: "sm = JObj zs" by (cases sm) auto
    let ?cs = "map coerce (py_dict zs)"
    let ?d = "dict_from (entry base (KStr sid)) ?cs"
    let ?b = "AList.update (KStr sid) ?d base"
    have run: "merge_styles ?b items = (a, e)" using Cons.prems(2) unfolding p sm merge_styles_obj .
    have "map_of a (KStr sid) = map_of ?b (KStr sid)"
      using merge_styles_frame[OF fresh, of ?b] run by simp
    then have at: "map_of a (KStr sid) = Some ?d" by (simp add: AList.update_conv')
    have "dict_from ?d ?cs = ?d"
      by (rule dict_from_idem) (rule distinct_coerce[OF distinct_py_dict])
    with at have "AList.update (KStr sid) (dict_from (entry a (KStr sid)) ?cs) a = a"
      by (simp add: entry_def AList.update_triv)
    then show ?thesis unfolding p sm merge_styles_obj using Cons.IH[OF dist run] by simp
  next
    case False
    from Cons.prems(2) show ?thesis unfolding p merge_styles_bad'[OF False] by (auto simp: ensure_idem)
  qed
qed

lemma merge_overrides_idem:
  "merge_overrides (fst (merge_overrides base extra)) extra = merge_overrides base extra"
proof (cases extra)
  case (JObj ms)
  obtain a e where m: "merge_styles base (py_dict ms) = (a, e)" by (cases "merge_styles base (py_dict ms)")
  from merge_styles_idem[OF distinct_py_dict m] m JObj show ?thesis by (simp add: merge_overrides_def)
qed (simp_all add: merge_overrides_def)

lemma merge_overrides_keeps_pair:
  "lookup2 base k z \<noteq> None \<Longrightarrow> lookup2 (fst (merge_overrides base extra)) k z \<noteq> None"
  by (cases extra) (simp_all add: merge_overrides_def merge_styles_keeps_pair)

lemma merge_overrides_keeps_style:
  "fst ` set base \<subseteq> fst ` set (fst (merge_overrides base extra))"
  by (cases extra) (simp_all add: merge_overrides_def merge_styles_keeps_style)

lemma merge_styles_complete:
  "merge_styles base items = (a, None) \<Longrightarrow> list_all (\<lambda>p. is_obj (snd p)) items"
proof (induction items arbitrary: base)
  case Nil
  then show ?case by simp
next
  case (Cons p items)
  obtain sid sm where p: "p = (sid, sm)" by (cases p)
  show ?case
  proof (cases "is_obj sm")
    case True
    then obtain zs where sm: "sm = JObj zs" by (cases sm) auto
    from Cons.prems have "merge_styles
       (AList.update (KStr sid) (dict_from (entry base (KStr sid)) (map coerce (py_dict zs))) base) items
       = (a, None)" unfolding p sm merge_styles_obj .
    from Cons.IH[OF this] True p show ?thesis by simp
  next
    case False
    from Cons.prems show ?thesis unfolding p merge_styles_bad'[OF False] by simp
  qed
qed

lemma merge_overrides_complete:
  assumes "snd (merge_overrides base extra) = None"
  shows "override_doc extra"
proof (cases extra)
  case (JObj ms)
  obtain a e where m: "merge_styles base (py_dict ms) = (a, e)" by (cases "merge_styles base (py_dict ms)")
  with assms JObj have "e = None" by (simp add: merge_overrides_def)
  with m have "list_all (\<lambda>p. is_obj (snd p)) (py_dict ms)" by (simp add: merge_styles_complete)
  with JObj show ?thesis by (simp add: override_doc_def)
qed (use assms in \<open>simp_all add: merge_overrides_def\<close>)

lemma merge_overrides_pair_dom: "pair_dom base \<subseteq> pair_dom (fst (merge_overrides base extra))"
proof
  fix p
  assume p: "p \<in> pair_dom base"
  obtain k z where kz: "p = (k, z)" by (cases p)
  with p have "lookup2 base k z \<noteq> None" by (simp add: pair_dom_def)
  then have "lookup2 (fst (merge_overrides base extra)) k z \<noteq> None"
    by (rule merge_overrides_keeps_pair)
  with kz show "p \<in> pair_dom (fst (merge_overrides base extra))" by (simp add: pair_dom_def)
qed

section \<open>Seeding\<close>

lemma sizes_true_strs:
  "sizes_true d (map JStr szs) = Inr (dict_from d (map (\<lambda>s. (KStr s, True)) szs))"
  by (induction szs arbitrary: d) simp_all

lemma seed_step:
  assumes "style_record st (i, szs)"
  shows "seed a (st # rest) = seed (AList.update (KStr i) (seeded szs) a) rest"
proof -
  from assms obtain ms where st: "st = JObj ms" by (cases st) simp_all
  from assms st have id: "map_of (py_dict ms) ''id'' = Some (JStr i)" by simp
  show ?thesis
  proof (cases "map_of (py_dict ms) ''sizes''")
    case None
    with assms st have "szs = []" by simp
    with None id st show ?thesis by (simp add: seeded_def)
  next
    case (Some v)
    with assms st have "v = JArr (map JStr szs)" by simp
    with Some id st show ?thesis by (simp add: seeded_def sizes_true_strs)
  qed
qed

lemma seed_records:
  "list_all2 style_record sts recs \<Longrightarrow> seed a sts = Inr (dict_from a (map seeded_style recs))"
proof (induction sts recs arbitrary: a rule: list_all2_induct)
  case Nil
  then show ?case by simp
next
  case (Cons st sts r recs)
  obtain i szs where r: "r = (i, szs)" by (cases r)
  from Cons.hyps(1) r have "seed a (st # sts) = seed (AList.update (KStr i) (seeded szs) a) sts"
    by (simp only: seed_step)
  with Cons.IH r show ?case by (simp add: seeded_style_def)
qed

lemma seed_catalog_records:
  assumes "catalog_records c recs"
  shows "seed_catalog c = Inr (dict_from [] (map seeded_style recs))"
proof -
  from assms obtain cms where c: "c = JObj cms" by (cases c) (simp_all add: catalog_records_def)
  show ?thesis
  proof (cases "map_of (py_dict cms) ''styles''")
    case None
    with assms c have "recs = []" by (simp add: catalog_records_def)
    with None c show ?thesis by (simp add: seed_catalog_def)
  next
    case (Some v)
    with assms c obtain sts where v: "v = JArr sts" and l: "list_all2 style_record sts recs"
      by (cases v) (simp_all add: catalog_records_def)
    from seed_records[OF l] Some v c show ?thesis by (simp add: seed_catalog_def)
  qed
qed

lemma map_of_seeded: "map_of (seeded szs) z = (if z \<in> KStr ` set szs then Some True else None)"
proof -
  have "map_of (rev (map (\<lambda>s. (KStr s, True)) szs)) z = (if z \<in> KStr ` set szs then Some True else None)"
    by (induction szs) (auto simp: map_add_def split: option.splits)
  then show ?thesis by (simp add: seeded_def map_of_dict_from)
qed

lemma keys_seeded: "fst ` set (seeded szs) = KStr ` set szs"
  by (auto simp: seeded_def keys_dict_from image_iff)

lemma seeded_Nil: "seeded [] = []"
  by (simp add: seeded_def)

lemma map_of_seeded_catalog:
  assumes "distinct (map fst recs)" "(i, szs) \<in> set recs"
  shows "map_of (dict_from [] (map seeded_style recs)) (KStr i) = Some (seeded szs)"
proof -
  have "map fst (map seeded_style recs) = map KStr (map fst recs)" by (simp add: seeded_style_def)
  with assms(1) have "distinct (map fst (map seeded_style recs))"
    by (simp add: distinct_map inj_on_def del: map_map)
  moreover have "(KStr i, seeded szs) \<in> set (map seeded_style recs)"
    using assms(2) by (force simp: seeded_style_def)
  ultimately show ?thesis by (rule dict_from_holds)
qed

lemma override_doc_builtin: "override_doc BUILTIN_OVERRIDES"
  by (simp add: override_doc_def BUILTIN_OVERRIDES_def all_sizes_true_def py_dict_distinct)

lemma build_availability_eq:
  "seed_catalog c = Inr a0 \<Longrightarrow>
   build_availability c ovr = Inr (apply_file (fst (merge_overrides a0 BUILTIN_OVERRIDES)) ovr)"
  using merge_overrides_no_error[OF override_doc_builtin, of a0]
  by (cases "merge_overrides a0 BUILTIN_OVERRIDES") (simp add: build_availability_def)

lemma build_availability_fails: "seed_catalog c = Inl err \<Longrightarrow> build_availability c ovr = Inl err"
  by (simp add: build_availability_def)

section \<open>Seeding does not remove either, for identifiers not yet in the map\<close>

text \<open>
  The seeding loop assigns \<^verbatim>\<open>availability[style_id] = {...}\<close>: a style identifier that
  occurs a second time in the catalog replaces the sizes seeded for the first.
\<close>

lemma repeated_id_replaces:
  "seed [] [JObj [(''id'', JStr ''a''), (''sizes'', JArr [JStr ''S''])],
            JObj [(''id'', JStr ''a''), (''sizes'', JArr [JStr ''M''])]] =
   Inr [(KStr ''a'', [(KStr ''M'', True)])]"
  by (simp add: py_dict_eval)

lemma seed_fresh_keeps:
  assumes "list_all2 style_record sts recs" "KStr ` fst ` set recs \<inter> fst ` set a = {}"
  shows "\<exists>a'. seed a sts = Inr a' \<and> pair_dom a \<subseteq> pair_dom a'"
proof -
  let ?xs = "map seeded_style recs"
  have k: "fst ` set ?xs = KStr ` fst ` set recs" by (force simp: seeded_style_def)
  have "lookup2 (dict_from a ?xs) k z = lookup2 a k z" if "lookup2 a k z \<noteq> None" for k z
  proof -
    from that have "map_of a k \<noteq> None" by (auto simp: lookup2_def split: option.splits)
    then have "k \<in> fst ` set a" by (simp add: map_of_eq_None_iff)
    with assms(2) k have "k \<notin> fst ` set (rev ?xs)" by auto
    then have "map_of (rev ?xs) k = None" by (simp add: map_of_eq_None_iff)
    then show ?thesis by (simp add: lookup2_def map_of_dict_from map_add_def)
  qed
  then have "pair_dom a \<subseteq> pair_dom (dict_from a ?xs)"
    unfolding pair_dom_def by (intro subsetI) (simp add: case_prod_beta)
  with seed_records[OF assms(1)] show ?thesis by simp
qed

section \<open>The whole run\<close>

lemma apply_file_lookup:
  assumes "clean_overrides ovr"
  shows "lookup2 (apply_file a ovr) (KStr sid) (KStr sz) =
     (case file_layer ovr sid sz of Some b \<Rightarrow> Some b | None \<Rightarrow> lookup2 a (KStr sid) (KStr sz))"
proof (cases ovr)
  case (Doc d)
  with assms have "override_doc d" by simp
  from merge_overrides_lookup[OF this] Doc show ?thesis by simp
qed simp_all

lemma final_lookup:
  assumes "clean_overrides ovr"
  shows "lookup2 (apply_file (fst (merge_overrides a0 BUILTIN_OVERRIDES)) ovr) (KStr sid) (KStr sz) =
     (case spec_override ovr sid sz of Some b \<Rightarrow> Some b | None \<Rightarrow> lookup2 a0 (KStr sid) (KStr sz))"
  unfolding apply_file_lookup[OF assms] merge_overrides_lookup[OF override_doc_builtin] spec_override_def
  by (simp split: option.splits)

lemma apply_file_entry:
  assumes "clean_overrides ovr" "\<not> mentions ovr sid"
  shows "map_of (apply_file a ovr) (KStr sid) = map_of a (KStr sid)"
proof (cases ovr)
  case (Doc d)
  with assms(1) have ok: "override_doc d" by simp
  then obtain ms where d: "d = JObj ms" by (cases d) (simp_all add: override_doc_def)
  with assms(2) Doc have "map_of (py_dict ms) sid = None" by simp
  with merge_overrides_entry[OF ok, of a sid] d Doc show ?thesis by simp
qed simp_all

lemma apply_file_keeps: "pair_dom a \<subseteq> pair_dom (apply_file a ovr)"
  by (cases ovr) (simp_all add: merge_overrides_pair_dom)

lemma main_eq:
  assumes "catalog_file e = Doc c" "seed_catalog c = Inr a0" "out_writable e"
  shows "main e = Inr \<lparr>out_file = \<lparr>updatedAt = utcnow e,
            styles = apply_file (fst (merge_overrides a0 BUILTIN_OVERRIDES)) (overrides_file e)\<rparr>,
          stdout = ''Wrote '' @ out_path e @ [CHR 0x0A]\<rparr>"
  using assms by (simp add: main_def build_availability_eq)

lemma seeded_pair:
  assumes "distinct (map fst recs)" "(sid, szs) \<in> set recs" "sz \<in> set szs"
  shows "lookup2 (dict_from [] (map seeded_style recs)) (KStr sid) (KStr sz) = Some True"
  using assms by (simp add: lookup2_def map_of_seeded_catalog map_of_seeded)

lemma builtin_entry:
  "map_of (fst (merge_overrides a0 BUILTIN_OVERRIDES)) (KStr sid) =
     (case map_of (py_dict (case BUILTIN_OVERRIDES of JObj ms \<Rightarrow> ms | _ \<Rightarrow> [])) sid of
        Some (JObj zs) \<Rightarrow> Some (dict_from (entry a0 (KStr sid)) (map coerce (py_dict zs)))
      | _ \<Rightarrow> map_of a0 (KStr sid))"
  unfolding merge_overrides_entry[OF override_doc_builtin]
  by (simp add: BUILTIN_OVERRIDES_def)

lemma builtin_partybag:
  "map_of a0 (KStr ''partybag'') = None \<Longrightarrow>
   map_of (fst (merge_overrides a0 BUILTIN_OVERRIDES)) (KStr ''partybag'') = Some [(KStr ''ONESIZE'', True)]"
  unfolding builtin_entry
  by (simp add: BUILTIN_OVERRIDES_def all_sizes_true_def py_dict_eval entry_def coerce_def)

lemma builtin_sapphire:
  "map_of a0 (KStr ''sapphire'') = Some (seeded [''I'', ''T'', ''S'', ''M'', ''L'', ''XL'', ''XXL'']) \<Longrightarrow>
   map_of (fst (merge_overrides a0 BUILTIN_OVERRIDES)) (KStr ''sapphire'') =
     Some [(KStr ''I'', True), (KStr ''T'', False), (KStr ''S'', False), (KStr ''M'', False),
           (KStr ''L'', True), (KStr ''XL'', True), (KStr ''XXL'', True)]"
  unfolding builtin_entry
  by (simp add: BUILTIN_OVERRIDES_def py_dict_eval entry_def coerce_def seeded_def)

text \<open>
  The optional file never ends the run, and a file that cannot be read or parsed leaves
  the run as it is without the file.
\<close>

lemma unparseable_overrides_ignored:
  "overrides_file e = Garbage \<Longrightarrow> main e = main (e\<lparr>overrides_file := NoFile\<rparr>)"
  by (simp add: main_def build_availability_def split: sum.splits prod.splits option.splits)

lemma overrides_never_fatal:
  "(\<exists>r. main e = Inr r) \<longleftrightarrow> (\<exists>r. main (e\<lparr>overrides_file := ovr\<rparr>) = Inr r)"
  by (simp add: main_def build_availability_def split: sum.splits prod.splits option.splits)

lemma sample_catalog_records: "catalog_records sample_catalog sample_records"
  by (simp add: catalog_records_def sample_catalog_def sample_records_def sample_sizes_def py_dict_eval)

lemma sample_file_clean: "override_doc sample_file"
  by (simp add: override_doc_def sample_file_def py_dict_eval)

section \<open>The properties\<close>

text \<open>
  C1. Layered precedence. For a catalog of the documented shape whose style records have
  unique identifiers, every pair of a style and one of its listed sizes is in the styles
  map of the output, with a boolean: the value the override file gives for the pair if
  it gives one, otherwise the value the built-in table gives if it gives one, otherwise
  \<open>True\<close>. In particular a value given by the file wins over a conflicting built-in
  value. The override file is absent, or cannot be parsed, or is an object of objects;
  the output location can be written.
\<close>

theorem layered_precedence:
  assumes "catalog_file e = Doc c"
    and "catalog_records c recs"
    and "distinct (map fst recs)"
    and "(sid, szs) \<in> set recs"
    and "sz \<in> set szs"
    and "clean_overrides (overrides_file e)"
    and "out_writable e"
  shows "\<exists>r. main e = Inr r \<and>
     lookup2 (styles (out_file r)) (KStr sid) (KStr sz) = Some (spec_precedence (overrides_file e) sid sz) \<and>
     (\<forall>b. file_layer (overrides_file e) sid sz = Some b \<longrightarrow>
        lookup2 (styles (out_file r)) (KStr sid) (KStr sz) = Some b)"
proof -
  let ?a0 = "dict_from [] (map seeded_style recs)"
  have s: "seed_catalog c = Inr ?a0" by (rule seed_catalog_records[OF assms(2)])
  have t: "lookup2 ?a0 (KStr sid) (KStr sz) = Some True" by (rule seeded_pair[OF assms(3,4,5)])
  note m = main_eq[OF assms(1) s assms(7)]
  have "lookup2 (apply_file (fst (merge_overrides ?a0 BUILTIN_OVERRIDES)) (overrides_file e)) (KStr sid) (KStr sz)
        = Some (spec_precedence (overrides_file e) sid sz)"
    unfolding final_lookup[OF assms(6)] t spec_override_def spec_precedence_def
    by (simp split: option.splits)
  moreover have "spec_precedence (overrides_file e) sid sz = b"
    if "file_layer (overrides_file e) sid sz = Some b" for b
    using that by (simp add: spec_precedence_def)
  ultimately show ?thesis unfolding m by simp
qed

theorem layered_precedence_witness:
  "catalog_file (sample_env (Doc sample_catalog) (Doc sample_file)) = Doc sample_catalog \<and>
   catalog_records sample_catalog sample_records \<and>
   distinct (map fst sample_records) \<and>
   (''sapphire'', sample_sizes) \<in> set sample_records \<and>
   ''T'' \<in> set sample_sizes \<and>
   clean_overrides (overrides_file (sample_env (Doc sample_catalog) (Doc sample_file))) \<and>
   out_writable (sample_env (Doc sample_catalog) (Doc sample_file)) \<and>
   specified BUILTIN_OVERRIDES ''sapphire'' ''T'' = Some False \<and>
   file_layer (Doc sample_file) ''sapphire'' ''T'' = Some True \<and>
   (\<exists>r. main (sample_env (Doc sample_catalog) (Doc sample_file)) = Inr r \<and>
        lookup2 (styles (out_file r)) (KStr ''sapphire'') (KStr ''T'') = Some True)"
proof -
  let ?e = "sample_env (Doc sample_catalog) (Doc sample_file)"
  have h1: "catalog_file ?e = Doc sample_catalog" by (simp add: sample_env_def)
  have h3: "distinct (map fst sample_records)" by (simp add: sample_records_def)
  have h4: "(''sapphire'', sample_sizes) \<in> set sample_records" by (simp add: sample_records_def)
  have h5: "''T'' \<in> set sample_sizes" by (simp add: sample_sizes_def)
  have h6: "clean_overrides (overrides_file ?e)" by (simp add: sample_env_def sample_file_clean)
  have h7: "out_writable ?e" by (simp add: sample_env_def)
  have b: "specified BUILTIN_OVERRIDES ''sapphire'' ''T'' = Some False"
    by (simp add: specified_def raw_value_def BUILTIN_OVERRIDES_def py_dict_eval)
  have f: "file_layer (Doc sample_file) ''sapphire'' ''T'' = Some True"
    by (simp add: specified_def raw_value_def sample_file_def py_dict_eval)
  have o: "overrides_file ?e = Doc sample_file" by (simp add: sample_env_def)
  from layered_precedence[OF h1 sample_catalog_records h3 h4 h5 h6 h7]
  obtain r where "main ?e = Inr r"
    and "\<forall>b. file_layer (overrides_file ?e) ''sapphire'' ''T'' = Some b \<longrightarrow>
        lookup2 (styles (out_file r)) (KStr ''sapphire'') (KStr ''T'') = Some b" by blast
  with f o have "\<exists>r. main ?e = Inr r \<and> lookup2 (styles (out_file r)) (KStr ''sapphire'') (KStr ''T'') = Some True"
    by auto
  with h1 sample_catalog_records h3 h4 h5 h6 h7 b f show ?thesis by blast
qed

text \<open>
  C2. An override file on which the merge raises is not ignored: what the merge has
  stored before the exception stays in the map. With the catalog \<^verbatim>\<open>{"styles": []}\<close> and
  the override file \<^verbatim>\<open>{"sapphire": {"T": true}, "bliss": 1}\<close> the merge raises
  \<open>AttributeError\<close> at \<open>bliss\<close>, after it has set sapphire/T; the run succeeds and its
  output has sapphire/T true, where the run without the file has it false.
\<close>

theorem broken_overrides_half_applied:
  "snd (merge_overrides (fst (merge_overrides [] BUILTIN_OVERRIDES)) broken_overrides) = Some AttributeError \<and>
   map_sum id (\<lambda>r. lookup2 (styles (out_file r)) (KStr ''sapphire'') (KStr ''T''))
     (main (sample_env (Doc empty_catalog) (Doc broken_overrides))) = Inr (Some True) \<and>
   map_sum id (\<lambda>r. lookup2 (styles (out_file r)) (KStr ''sapphire'') (KStr ''T''))
     (main (sample_env (Doc empty_catalog) NoFile)) = Inr (Some False)"
proof -
  have s: "seed_catalog empty_catalog = Inr []"
    by (simp add: seed_catalog_def empty_catalog_def py_dict_eval)
  have b: "lookup2 (fst (merge_overrides [] BUILTIN_OVERRIDES)) (KStr ''sapphire'') (KStr ''T'') = Some False"
    unfolding merge_overrides_lookup[OF override_doc_builtin]
    by (simp add: specified_def raw_value_def BUILTIN_OVERRIDES_def py_dict_eval)
  have m: "merge_overrides a broken_overrides =
      (ensure (AList.update (KStr ''sapphire'') (dict_from (entry a (KStr ''sapphire'')) [(KStr ''T'', True)]) a)
         (KStr ''bliss''), Some AttributeError)" for a
    by (simp add: merge_overrides_def broken_overrides_def py_dict_eval merge_styles_obj
        merge_styles_bad' coerce_def del: merge_styles.simps)
  have t: "lookup2 (fst (merge_overrides a broken_overrides)) (KStr ''sapphire'') (KStr ''T'') = Some True" for a
    unfolding m by (simp add: lookup2_ensure) (simp add: lookup2_def AList.update_conv')
  have e1: "main (sample_env (Doc empty_catalog) (Doc broken_overrides)) = Inr \<lparr>out_file = \<lparr>updatedAt = ''2024-05-01T12:00:00Z'',
      styles = fst (merge_overrides (fst (merge_overrides [] BUILTIN_OVERRIDES)) broken_overrides)\<rparr>,
      stdout = ''Wrote /repo/data/availability.json'' @ [CHR 0x0A]\<rparr>"
    using main_eq[of "sample_env (Doc empty_catalog) (Doc broken_overrides)", OF _ s]
    by (simp add: sample_env_def)
  have e2: "main (sample_env (Doc empty_catalog) NoFile) = Inr \<lparr>out_file = \<lparr>updatedAt = ''2024-05-01T12:00:00Z'',
      styles = fst (merge_overrides [] BUILTIN_OVERRIDES)\<rparr>,
      stdout = ''Wrote /repo/data/availability.json'' @ [CHR 0x0A]\<rparr>"
    using main_eq[of "sample_env (Doc empty_catalog) NoFile", OF _ s]
    by (simp add: sample_env_def)
  show ?thesis unfolding e1 e2 by (simp add: t b) (simp add: m)
qed

text \<open>
  C3, as it is stated, fails: a catalog that loads can still end the run. The catalog
  \<^verbatim>\<open>{"styles": [{"sizes": ["S"]}]}\<close> loads, and \<^verbatim>\<open>st["id"]\<close> raises \<open>KeyError\<close> in
  the seeding loop, which nothing catches.
\<close>

theorem loaded_catalog_can_be_fatal:
  "load_json (Doc nameless_catalog) = Inr nameless_catalog \<and>
   main (sample_env (Doc nameless_catalog) NoFile) = Inl KeyError"
  by (simp add: main_def build_availability_def seed_catalog_def sample_env_def nameless_catalog_def py_dict_eval)

text \<open>
  C3, amended. A missing catalog file ends the run with \<open>FileNotFoundError\<close>, one that
  cannot be parsed with \<open>JSONDecodeError\<close>, and then nothing is written. A catalog that
  loads and has the documented shape gives a run that succeeds when the output
  location can be written, whatever the override file holds. In general the run
  succeeds exactly when the catalog loads, the seeding loop raises nothing on it and
  the output can be written.
\<close>

theorem fatal_conditions:
  "(catalog_file e = NoFile \<longrightarrow> main e = Inl FileNotFoundError) \<and>
   (catalog_file e = Garbage \<longrightarrow> main e = Inl JSONDecodeError) \<and>
   (catalog_file e = Doc c \<and> catalog_records c recs \<and> out_writable e \<longrightarrow> (\<exists>r. main e = Inr r)) \<and>
   ((\<exists>r. main e = Inr r) \<longleftrightarrow>
      (\<exists>c a0. catalog_file e = Doc c \<and> seed_catalog c = Inr a0 \<and> out_writable e))"
proof -
  have 1: "catalog_file e = NoFile \<longrightarrow> main e = Inl FileNotFoundError" by (simp add: main_def)
  have 2: "catalog_file e = Garbage \<longrightarrow> main e = Inl JSONDecodeError" by (simp add: main_def)
  have 3: "catalog_file e = Doc c \<and> catalog_records c recs \<and> out_writable e \<longrightarrow> (\<exists>r. main e = Inr r)"
    using main_eq[of e c, OF _ seed_catalog_records] by blast
  have 4: "(\<exists>r. main e = Inr r) \<longleftrightarrow>
      (\<exists>c a0. catalog_file e = Doc c \<and> seed_catalog c = Inr a0 \<and> out_writable e)"
  proof
    assume "\<exists>r. main e = Inr r"
    then obtain r where r: "main e = Inr r" ..
    then obtain c where c: "catalog_file e = Doc c"
      by (cases "catalog_file e") (simp_all add: main_def)
    from r c obtain a0 where "seed_catalog c = Inr a0"
      by (cases "seed_catalog c") (simp_all add: main_def build_availability_def)
    moreover from r c have "out_writable e"
      by (auto simp: main_def split: sum.splits if_splits)
    ultimately show "\<exists>c a0. catalog_file e = Doc c \<and> seed_catalog c = Inr a0 \<and> out_writable e"
      using c by blast
  next
    assume "\<exists>c a0. catalog_file e = Doc c \<and> seed_catalog c = Inr a0 \<and> out_writable e"
    then show "\<exists>r. main e = Inr r" using main_eq by blast
  qed
  from 1 2 3 4 show ?thesis by blast
qed

theorem fatal_conditions_witness:
  "main (sample_env NoFile NoFile) = Inl FileNotFoundError \<and>
   main (sample_env Garbage NoFile) = Inl JSONDecodeError \<and>
   catalog_records sample_catalog sample_records \<and>
   (\<exists>r. main (sample_env (Doc sample_catalog) (Doc broken_overrides)) = Inr r) \<and>
   (\<exists>a0. seed_catalog sample_catalog = Inr a0)"
proof -
  have n: "catalog_file (sample_env NoFile NoFile) = NoFile" by (simp add: sample_env_def)
  have g: "catalog_file (sample_env Garbage NoFile) = Garbage" by (simp add: sample_env_def)
  let ?e = "sample_env (Doc sample_catalog) (Doc broken_overrides)"
  have d: "catalog_file ?e = Doc sample_catalog \<and> catalog_records sample_catalog sample_records \<and> out_writable ?e"
    by (simp add: sample_env_def sample_catalog_records)
  from fatal_conditions[of "sample_env NoFile NoFile"] n
  have 1: "main (sample_env NoFile NoFile) = Inl FileNotFoundError" by blast
  from fatal_conditions[of "sample_env Garbage NoFile"] g
  have 2: "main (sample_env Garbage NoFile) = Inl JSONDecodeError" by blast
  from fatal_conditions[of ?e sample_catalog sample_records] d
  have 3: "\<exists>r. main ?e = Inr r" by blast
  with fatal_conditions[of ?e sample_catalog sample_records] d
  have 4: "\<exists>a0. seed_catalog sample_catalog = Inr a0" by auto
  from 1 2 3 4 d show ?thesis by blast
qed

text \<open>
  C4. The merge is not filtered by the catalog. For every catalog on which seeding
  succeeds, a pair that the catalog has not seeded and for which the override file or
  the built-in table gives a value is in the output with that value (the file's, when
  both give one). In particular, when the catalog has no style \<open>partybag\<close> and the
  override file does not name it, the output has \<open>partybag\<close> with exactly
  \<open>ONESIZE\<close> true.
\<close>

theorem overrides_outside_catalog:
  assumes "catalog_file e = Doc c"
    and "seed_catalog c = Inr a0"
    and "clean_overrides (overrides_file e)"
    and "out_writable e"
  shows "\<exists>r. main e = Inr r \<and>
     (\<forall>sid sz b. lookup2 a0 (KStr sid) (KStr sz) = None \<and>
                 spec_override (overrides_file e) sid sz = Some b \<longrightarrow>
        lookup2 (styles (out_file r)) (KStr sid) (KStr sz) = Some b) \<and>
     (map_of a0 (KStr ''partybag'') = None \<and> \<not> mentions (overrides_file e) ''partybag'' \<longrightarrow>
        map_of (styles (out_file r)) (KStr ''partybag'') = Some [(KStr ''ONESIZE'', True)])"
  unfolding main_eq[OF assms(1,2,4)]
  by (simp add: final_lookup[OF assms(3)] apply_file_entry[OF assms(3)] builtin_partybag)

theorem overrides_outside_catalog_witness:
  "catalog_file (sample_env (Doc sparse_catalog) (Doc sample_file)) = Doc sparse_catalog \<and>
   seed_catalog sparse_catalog = Inr [(KStr ''zebra'', [(KStr ''S'', True)])] \<and>
   clean_overrides (overrides_file (sample_env (Doc sparse_catalog) (Doc sample_file))) \<and>
   out_writable (sample_env (Doc sparse_catalog) (Doc sample_file)) \<and>
   spec_override (Doc sample_file) ''extra'' ''XS'' = Some True \<and>
   spec_override (Doc sample_file) ''purple'' ''M'' = Some True \<and>
   \<not> mentions (Doc sample_file) ''partybag'' \<and>
   (\<exists>r. main (sample_env (Doc sparse_catalog) (Doc sample_file)) = Inr r \<and>
      lookup2 (styles (out_file r)) (KStr ''extra'') (KStr ''XS'') = Some True \<and>
      lookup2 (styles (out_file r)) (KStr ''purple'') (KStr ''M'') = Some True \<and>
      map_of (styles (out_file r)) (KStr ''partybag'') = Some [(KStr ''ONESIZE'', True)])"
proof -
  let ?e = "sample_env (Doc sparse_catalog) (Doc sample_file)"
  let ?a0 = "[(KStr ''zebra'', [(KStr ''S'', True)])]"
  have h1: "catalog_file ?e = Doc sparse_catalog" by (simp add: sample_env_def)
  have h2: "seed_catalog sparse_catalog = Inr ?a0"
    by (simp add: seed_catalog_def sparse_catalog_def py_dict_eval)
  have h3: "clean_overrides (overrides_file ?e)" by (simp add: sample_env_def sample_file_clean)
  have h4: "out_writable ?e" by (simp add: sample_env_def)
  have o: "overrides_file ?e = Doc sample_file" by (simp add: sample_env_def)
  have x: "spec_override (Doc sample_file) ''extra'' ''XS'' = Some True"
    by (simp add: spec_override_def specified_def raw_value_def sample_file_def py_dict_eval)
  have p: "spec_override (Doc sample_file) ''purple'' ''M'' = Some True"
    by (simp add: spec_override_def specified_def raw_value_def sample_file_def
        BUILTIN_OVERRIDES_def all_sizes_true_def py_dict_eval)
  have n: "\<not> mentions (Doc sample_file) ''partybag''"
    by (simp add: sample_file_def py_dict_eval)
  have a: "lookup2 ?a0 (KStr ''extra'') (KStr ''XS'') = None" "lookup2 ?a0 (KStr ''purple'') (KStr ''M'') = None"
    "map_of ?a0 (KStr ''partybag'') = None"
    by (simp_all add: lookup2_def)
  from overrides_outside_catalog[OF h1 h2 h3 h4] obtain r where r: "main ?e = Inr r"
    and g: "\<And>sid sz b. lookup2 ?a0 (KStr sid) (KStr sz) = None \<Longrightarrow>
                 spec_override (overrides_file ?e) sid sz = Some b \<Longrightarrow>
        lookup2 (styles (out_file r)) (KStr sid) (KStr sz) = Some b"
    and b: "map_of ?a0 (KStr ''partybag'') = None \<and> \<not> mentions (overrides_file ?e) ''partybag'' \<longrightarrow>
        map_of (styles (out_file r)) (KStr ''partybag'') = Some [(KStr ''ONESIZE'', True)]"
    by blast
  have "lookup2 (styles (out_file r)) (KStr ''extra'') (KStr ''XS'') = Some True"
    using g[OF a(1)] x o by simp
  moreover have "lookup2 (styles (out_file r)) (KStr ''purple'') (KStr ''M'') = Some True"
    using g[OF a(2)] p o by simp
  moreover have "map_of (styles (out_file r)) (KStr ''partybag'') = Some [(KStr ''ONESIZE'', True)]"
    using b a(3) n o by simp
  ultimately show ?thesis using r h1 h2 h3 h4 x p n by blast
qed

text \<open>
  C5. Seeding, for a catalog of the documented shape with unique identifiers: the
  seeded map has an entry for every style record, whose keys are exactly the listed
  sizes, each with \<open>True\<close>; a record with no sizes has the empty entry. Hence a pair of
  the catalog for which neither the built-in table nor the override file gives a value
  is true in the output.
\<close>

theorem seeding_defaults_true:
  assumes "catalog_records c recs"
    and "distinct (map fst recs)"
    and "(sid, szs) \<in> set recs"
  shows "\<exists>a0 d. seed_catalog c = Inr a0 \<and> map_of a0 (KStr sid) = Some d \<and>
     fst ` set d = KStr ` set szs \<and>
     (\<forall>sz \<in> set szs. map_of d (KStr sz) = Some True) \<and>
     (szs = [] \<longrightarrow> d = []) \<and>
     (\<forall>e sz. catalog_file e = Doc c \<and> out_writable e \<and> sz \<in> set szs \<and>
             clean_overrides (overrides_file e) \<and> spec_override (overrides_file e) sid sz = None \<longrightarrow>
        (\<exists>r. main e = Inr r \<and> lookup2 (styles (out_file r)) (KStr sid) (KStr sz) = Some True))"
proof -
  let ?a0 = "dict_from [] (map seeded_style recs)"
  have s: "seed_catalog c = Inr ?a0" by (rule seed_catalog_records[OF assms(1)])
  have d: "map_of ?a0 (KStr sid) = Some (seeded szs)" by (rule map_of_seeded_catalog[OF assms(2,3)])
  have "\<exists>r. main e = Inr r \<and> lookup2 (styles (out_file r)) (KStr sid) (KStr sz) = Some True"
    if "catalog_file e = Doc c" "out_writable e" "sz \<in> set szs"
      "clean_overrides (overrides_file e)" "spec_override (overrides_file e) sid sz = None" for e sz
    unfolding main_eq[OF that(1) s that(2)]
    by (simp add: final_lookup[OF that(4)] that(5) seeded_pair[OF assms(2,3) that(3)])
  then show ?thesis using s d
    by (auto simp: keys_seeded map_of_seeded seeded_Nil simp del: map_map)
qed

theorem seeding_defaults_true_witness:
  "catalog_records sample_catalog sample_records \<and>
   distinct (map fst sample_records) \<and>
   (''zebra'', [''S'', ''M'']) \<in> set sample_records \<and>
   (''plain'', []) \<in> set sample_records \<and>
   spec_override NoFile ''zebra'' ''S'' = None \<and>
   (\<exists>a0. seed_catalog sample_catalog = Inr a0 \<and>
      lookup2 a0 (KStr ''zebra'') (KStr ''S'') = Some True \<and>
      lookup2 a0 (KStr ''zebra'') (KStr ''M'') = Some True \<and>
      map_of a0 (KStr ''plain'') = Some []) \<and>
   (\<exists>r. main (sample_env (Doc sample_catalog) NoFile) = Inr r \<and>
      lookup2 (styles (out_file r)) (KStr ''zebra'') (KStr ''S'') = Some True)"
proof -
  let ?e = "sample_env (Doc sample_catalog) NoFile"
  have h2: "distinct (map fst sample_records)" by (simp add: sample_records_def)
  have z: "(''zebra'', [''S'', ''M'']) \<in> set sample_records" by (simp add: sample_records_def)
  have p: "(''plain'', []) \<in> set sample_records" by (simp add: sample_records_def)
  have n: "spec_override NoFile ''zebra'' ''S'' = None"
    by (simp add: spec_override_def specified_def raw_value_def BUILTIN_OVERRIDES_def py_dict_eval)
  have e: "catalog_file ?e = Doc sample_catalog \<and> out_writable ?e \<and> ''S'' \<in> set [''S'', ''M''] \<and>
      clean_overrides (overrides_file ?e) \<and> spec_override (overrides_file ?e) ''zebra'' ''S'' = None"
    using n by (simp add: sample_env_def)
  from seeding_defaults_true[OF sample_catalog_records h2 z] obtain a0 d
    where a0: "seed_catalog sample_catalog = Inr a0" and d: "map_of a0 (KStr ''zebra'') = Some d"
      and t: "\<forall>sz \<in> set [''S'', ''M'']. map_of d (KStr sz) = Some True"
      and m: "\<forall>e sz. catalog_file e = Doc sample_catalog \<and> out_writable e \<and> sz \<in> set [''S'', ''M''] \<and>
             clean_overrides (overrides_file e) \<and> spec_override (overrides_file e) ''zebra'' sz = None \<longrightarrow>
        (\<exists>r. main e = Inr r \<and> lookup2 (styles (out_file r)) (KStr ''zebra'') (KStr sz) = Some True)"
    by blast
  from seeding_defaults_true[OF sample_catalog_records h2 p] obtain a0' d'
    where a0': "seed_catalog sample_catalog = Inr a0'" and d': "map_of a0' (KStr ''plain'') = Some d'"
      and em: "[] = ([] :: string list) \<longrightarrow> d' = []"
    by blast
  from a0 a0' have same: "a0' = a0" by simp
  have "lookup2 a0 (KStr ''zebra'') (KStr ''S'') = Some True" "lookup2 a0 (KStr ''zebra'') (KStr ''M'') = Some True"
    using d t by (simp_all add: lookup2_def)
  moreover have "map_of a0 (KStr ''plain'') = Some []" using d' em same by simp
  moreover from m e have "\<exists>r. main ?e = Inr r \<and> lookup2 (styles (out_file r)) (KStr ''zebra'') (KStr ''S'') = Some True"
    by blast
  ultimately show ?thesis using sample_catalog_records h2 z p n a0 by blast
qed

text \<open>
  C6. A run at another time of day is the same run with another \<open>updatedAt\<close>: it fails
  with the same exception or succeeds with the same styles and the same message, and
  the timestamp is the only field of the output document that differs.
\<close>

theorem styles_independent_of_clock:
  "main (e\<lparr>utcnow := t\<rparr>) =
     map_sum id (\<lambda>r. r\<lparr>out_file := (out_file r)\<lparr>updatedAt := t\<rparr>\<rparr>) (main e) \<and>
   map_sum id (\<lambda>r. styles (out_file r)) (main (e\<lparr>utcnow := t\<rparr>)) =
     map_sum id (\<lambda>r. styles (out_file r)) (main e)"
  by (simp add: main_def split: sum.splits)

theorem styles_independent_of_clock_witness:
  "main ((sample_env (Doc sample_catalog) NoFile)\<lparr>utcnow := ''2031-12-31T23:59:59Z''\<rparr>) =
     map_sum id (\<lambda>r. r\<lparr>out_file := (out_file r)\<lparr>updatedAt := ''2031-12-31T23:59:59Z''\<rparr>\<rparr>)
       (main (sample_env (Doc sample_catalog) NoFile))"
  using styles_independent_of_clock[where e = "sample_env (Doc sample_catalog) NoFile"
      and t = "''2031-12-31T23:59:59Z''"]
  by (rule conjunct1)

text \<open>
  C7. For a catalog (documented shape, unique identifiers) that lists \<open>sapphire\<close> with
  the sizes I, T, S, M, L, XL, XXL, and no override file, the output has \<open>sapphire\<close>
  with I true, T, S and M false, and L, XL, XXL true, in this order.
\<close>

theorem sapphire_example:
  assumes "catalog_file e = Doc c"
    and "catalog_records c recs"
    and "distinct (map fst recs)"
    and "(''sapphire'', [''I'', ''T'', ''S'', ''M'', ''L'', ''XL'', ''XXL'']) \<in> set recs"
    and "overrides_file e = NoFile"
    and "out_writable e"
  shows "\<exists>r. main e = Inr r \<and>
     map_of (styles (out_file r)) (KStr ''sapphire'') =
       Some [(KStr ''I'', True), (KStr ''T'', False), (KStr ''S'', False), (KStr ''M'', False),
             (KStr ''L'', True), (KStr ''XL'', True), (KStr ''XXL'', True)]"
proof -
  let ?a0 = "dict_from [] (map seeded_style recs)"
  have s: "seed_catalog c = Inr ?a0" by (rule seed_catalog_records[OF assms(2)])
  have d: "map_of ?a0 (KStr ''sapphire'') = Some (seeded [''I'', ''T'', ''S'', ''M'', ''L'', ''XL'', ''XXL''])"
    by (rule map_of_seeded_catalog[OF assms(3,4)])
  show ?thesis unfolding main_eq[OF assms(1) s assms(6)] assms(5)
    by (simp add: builtin_sapphire[OF d])
qed

theorem sapphire_example_witness:
  "catalog_file (sample_env (Doc sample_catalog) NoFile) = Doc sample_catalog \<and>
   catalog_records sample_catalog sample_records \<and>
   distinct (map fst sample_records) \<and>
   (''sapphire'', [''I'', ''T'', ''S'', ''M'', ''L'', ''XL'', ''XXL'']) \<in> set sample_records \<and>
   overrides_file (sample_env (Doc sample_catalog) NoFile) = NoFile \<and>
   out_writable (sample_env (Doc sample_catalog) NoFile) \<and>
   (\<exists>r. main (sample_env (Doc sample_catalog) NoFile) = Inr r \<and>
     map_of (styles (out_file r)) (KStr ''sapphire'') =
       Some [(KStr ''I'', True), (KStr ''T'', False), (KStr ''S'', False), (KStr ''M'', False),
             (KStr ''L'', True), (KStr ''XL'', True), (KStr ''XXL'', True)])"
proof -
  let ?e = "sample_env (Doc sample_catalog) NoFile"
  have h1: "catalog_file ?e = Doc sample_catalog" by (simp add: sample_env_def)
  have h3: "distinct (map fst sample_records)" by (simp add: sample_records_def)
  have h4: "(''sapphire'', [''I'', ''T'', ''S'', ''M'', ''L'', ''XL'', ''XXL'']) \<in> set sample_records"
    by (simp add: sample_records_def sample_sizes_def)
  have h5: "overrides_file ?e = NoFile" by (simp add: sample_env_def)
  have h6: "out_writable ?e" by (simp add: sample_env_def)
  from sapphire_example[OF h1 sample_catalog_records h3 h4 h5 h6] h1 sample_catalog_records h3 h4 h5 h6
  show ?thesis by blast
qed

text \<open>
  C8. An override layer stores \<open>bool(v)\<close>: when the layer gives the value \<open>v\<close> for a
  pair of style and size and the merge runs to its end, the map holds exactly
  \<open>py_bool v\<close> for the pair afterwards, whatever JSON value \<open>v\<close> is. The map holds
  booleans only, by its type: seeding stores \<open>True\<close> and the merge stores \<open>py_bool\<close>.
\<close>

theorem override_values_coerced:
  assumes "raw_value extra sid sz = Some v"
    and "snd (merge_overrides base extra) = None"
  shows "lookup2 (fst (merge_overrides base extra)) (KStr sid) (KStr sz) = Some (py_bool v)"
  using merge_overrides_lookup[OF merge_overrides_complete[OF assms(2)], of base sid sz] assms(1)
  by (simp add: specified_def)

theorem override_values_coerced_witness:
  "raw_value sample_extra ''onyx'' ''L'' = Some (JStr ''no'') \<and>
   snd (merge_overrides sample_base sample_extra) = None \<and>
   lookup2 (fst (merge_overrides sample_base sample_extra)) (KStr ''onyx'') (KStr ''L'') = Some True"
proof -
  have r: "raw_value sample_extra ''onyx'' ''L'' = Some (JStr ''no'')"
    by (simp add: raw_value_def sample_extra_def py_dict_eval)
  have n: "snd (merge_overrides sample_base sample_extra) = None"
    by (simp add: merge_overrides_def sample_base_def sample_extra_def py_dict_eval)
  from override_values_coerced[OF r n] r n show ?thesis by simp
qed

text \<open>
  C9. \<open>merge_overrides\<close> removes nothing: for every map and every document, also one
  on which it raises, every pair of style and size and every style of the map before
  is in the map after. Seeding records whose identifiers are not yet in the map keeps
  every pair as well, so with unique identifiers each step of the seeding loop does.
  Hence, whenever seeding succeeds, the pairs of the seeded map are among those after
  the built-in merge, and these among those of the final map.
\<close>

theorem merge_overrides_never_removes:
  "pair_dom base \<subseteq> pair_dom (fst (merge_overrides base extra)) \<and>
   fst ` set base \<subseteq> fst ` set (fst (merge_overrides base extra)) \<and>
   (list_all2 style_record sts recs \<and> KStr ` fst ` set recs \<inter> fst ` set a = {} \<longrightarrow>
      (\<exists>a'. seed a sts = Inr a' \<and> pair_dom a \<subseteq> pair_dom a')) \<and>
   (seed_catalog c = Inr a0 \<longrightarrow>
      (\<exists>a. build_availability c ovr = Inr a \<and>
           pair_dom a0 \<subseteq> pair_dom (fst (merge_overrides a0 BUILTIN_OVERRIDES)) \<and>
           pair_dom (fst (merge_overrides a0 BUILTIN_OVERRIDES)) \<subseteq> pair_dom a))"
proof (intro conjI impI)
  show "pair_dom base \<subseteq> pair_dom (fst (merge_overrides base extra))"
    by (rule merge_overrides_pair_dom)
  show "fst ` set base \<subseteq> fst ` set (fst (merge_overrides base extra))"
    by (rule merge_overrides_keeps_style)
next
  assume "list_all2 style_record sts recs \<and> KStr ` fst ` set recs \<inter> fst ` set a = {}"
  then show "\<exists>a'. seed a sts = Inr a' \<and> pair_dom a \<subseteq> pair_dom a'"
    using seed_fresh_keeps by blast
next
  assume "seed_catalog c = Inr a0"
  then have "build_availability c ovr = Inr (apply_file (fst (merge_overrides a0 BUILTIN_OVERRIDES)) ovr)"
    by (rule build_availability_eq)
  then show "\<exists>a. build_availability c ovr = Inr a \<and>
           pair_dom a0 \<subseteq> pair_dom (fst (merge_overrides a0 BUILTIN_OVERRIDES)) \<and>
           pair_dom (fst (merge_overrides a0 BUILTIN_OVERRIDES)) \<subseteq> pair_dom a"
    using merge_overrides_pair_dom apply_file_keeps by blast
qed

theorem merge_overrides_never_removes_witness:
  "(KStr ''onyx'', KStr ''M'') \<in> pair_dom sample_base \<and>
   (KStr ''onyx'', KStr ''M'') \<in> pair_dom (fst (merge_overrides sample_base broken_overrides)) \<and>
   KStr ''onyx'' \<in> fst ` set (fst (merge_overrides sample_base broken_overrides)) \<and>
   list_all2 style_record [JObj [(''id'', JStr ''zebra''), (''sizes'', JArr [JStr ''S''])]] [(''zebra'', [''S''])] \<and>
   (\<exists>a'. seed sample_base [JObj [(''id'', JStr ''zebra''), (''sizes'', JArr [JStr ''S''])]] = Inr a' \<and>
      (KStr ''onyx'', KStr ''M'') \<in> pair_dom a') \<and>
   seed_catalog sparse_catalog = Inr [(KStr ''zebra'', [(KStr ''S'', True)])] \<and>
   (\<exists>a. build_availability sparse_catalog (Doc broken_overrides) = Inr a \<and>
      (KStr ''zebra'', KStr ''S'') \<in> pair_dom a)"
proof -
  let ?st = "JObj [(''id'', JStr ''zebra''), (''sizes'', JArr [JStr ''S''])]"
  let ?a0 = "[(KStr ''zebra'', [(KStr ''S'', True)])]"
  note t = merge_overrides_never_removes[of sample_base broken_overrides "[?st]" "[(''zebra'', [''S''])]"
      sample_base sparse_catalog ?a0 "Doc broken_overrides"]
  have m: "(KStr ''onyx'', KStr ''M'') \<in> pair_dom sample_base"
    by (auto simp: pair_dom_def lookup2_def sample_base_def)
  have o: "KStr ''onyx'' \<in> fst ` set sample_base" by (simp add: sample_base_def)
  have l: "list_all2 style_record [?st] [(''zebra'', [''S''])]" by (simp add: py_dict_eval)
  have f: "KStr ` fst ` set [(''zebra'', [''S''])] \<inter> fst ` set sample_base = {}"
    by (simp add: sample_base_def)
  have s: "seed_catalog sparse_catalog = Inr ?a0"
    by (simp add: seed_catalog_def sparse_catalog_def py_dict_eval)
  have z: "(KStr ''zebra'', KStr ''S'') \<in> pair_dom ?a0" by (auto simp: pair_dom_def lookup2_def)
  from t m o have "(KStr ''onyx'', KStr ''M'') \<in> pair_dom (fst (merge_overrides sample_base broken_overrides))"
    "KStr ''onyx'' \<in> fst ` set (fst (merge_overrides sample_base broken_overrides))" by blast+
  moreover from t l f m have "\<exists>a'. seed sample_base [?st] = Inr a' \<and> (KStr ''onyx'', KStr ''M'') \<in> pair_dom a'"
    by blast
  moreover from t s z have "\<exists>a. build_availability sparse_catalog (Doc broken_overrides) = Inr a \<and>
      (KStr ''zebra'', KStr ''S'') \<in> pair_dom a" by blast
  ultimately show ?thesis using m l s by blast
qed

text \<open>
  C10. Merging the same \<open>extra\<close> a second time leaves the map as the first merge left
  it, for every map and every document, also one on which the merge raises: the
  second pass raises the same exception in the same state.
\<close>

theorem merge_overrides_idempotent:
  "merge_overrides (fst (merge_overrides base extra)) extra = merge_overrides base extra"
  by (rule merge_overrides_idem)

theorem merge_overrides_idempotent_witness:
  "merge_overrides (fst (merge_overrides sample_base sample_extra)) sample_extra =
     merge_overrides sample_base sample_extra \<and>
   merge_overrides (fst (merge_overrides sample_base broken_overrides)) broken_overrides =
     merge_overrides sample_base broken_overrides \<and>
   snd (merge_overrides sample_base broken_overrides) = Some AttributeError"
proof -
  have "snd (merge_overrides sample_base broken_overrides) = Some AttributeError"
    by (simp add: merge_overrides_def sample_base_def broken_overrides_def py_dict_eval)
  with merge_overrides_idempotent[of sample_base sample_extra]
    merge_overrides_idempotent[of sample_base broken_overrides]
  show ?thesis by simp
qed

end
